theory Spec2Isabelle
  imports Complex_Main "HOL-Library.Multiset"
begin

section \<open>Python arithmetic behind the partition size\<close>

text \<open>
  \<^verbatim>\<open>self.n_train = int(len(inputs) * 0.90)\<close> multiplies a Python int by a float literal:
  the int is converted to an IEEE-754 double, the product is rounded to the nearest
  double (ties to even) and \<^verbatim>\<open>int()\<close> truncates it. Only non-negative finite
  doubles occur, so a double is a pair \<open>(m, e)\<close> standing for \<open>m * 2^e\<close> with a
  significand of at most 53 bits. \<^verbatim>\<open>len\<close> is below \<open>2^63\<close>, far from the exponent
  range's ends, so overflow and subnormal numbers do not arise.
\<close>

type_synonym double = "nat \<times> int"

fun bit_length :: "nat \<Rightarrow> nat" where
  "bit_length n = (if n = 0 then 0 else Suc (bit_length (n div 2)))"

declare bit_length.simps [simp del]

definition round_double :: "nat \<Rightarrow> int \<Rightarrow> double" where
  \<comment> \<open>the double nearest to \<open>m * 2^e\<close>, ties to the even significand\<close>
  "round_double m e =
     (if bit_length m \<le> 53 then (m, e)
      else
        let s = bit_length m - 53;
            q = m div 2 ^ s;
            r = m mod 2 ^ s;
            q' = (if 2 ^ s < 2 * r then q + 1
                  else if 2 * r = 2 ^ s \<and> odd q then q + 1
                  else q)
        in (q', e + int s))"

definition float_of_int :: "nat \<Rightarrow> double" where
  "float_of_int n = round_double n 0"

definition float_0_90 :: double where
  \<comment> \<open>the literal \<^verbatim>\<open>0.90\<close>: the double \<open>0x3FECCCCCCCCCCCCD\<close>\<close>
  "float_0_90 = (8106479329266893, - 53)"

definition float_mul :: "double \<Rightarrow> double \<Rightarrow> double" where
  "float_mul a b = round_double (fst a * fst b) (snd a + snd b)"

definition int_of_float :: "double \<Rightarrow> nat" where
  \<comment> \<open>\<^verbatim>\<open>int(x)\<close> for \<open>x \<ge> 0\<close>: truncation\<close>
  "int_of_float a =
     (if 0 \<le> snd a then fst a * 2 ^ nat (snd a) else fst a div 2 ^ nat (- snd a))"

definition compute_n_train :: "nat \<Rightarrow> nat" where
  "compute_n_train len_inputs = int_of_float (float_mul (float_of_int len_inputs) float_0_90)"

section \<open>Tensors and the layers of \<open>FeatureMLP\<close>\<close>

text \<open>
  Tensors hold exact reals: a vector is a list, a matrix the list of its rows. The rounding
  of 32-bit floats inside the numeric library is not part of this development.
\<close>

type_synonym vec = "real list"
type_synonym mat = "real list list"

record Linear =
  weight :: mat
  bias :: vec

definition dot :: "vec \<Rightarrow> vec \<Rightarrow> real" where
  "dot w x = sum_list (map2 (*) w x)"

definition Linear_row :: "Linear \<Rightarrow> vec \<Rightarrow> vec" where
  \<comment> \<open>\<^verbatim>\<open>nn.Linear\<close> on one example: \<open>y\<^sub>j = w\<^sub>j \<bullet> x + b\<^sub>j\<close>\<close>
  "Linear_row l x = map2 (\<lambda>w b. dot w x + b) (weight l) (bias l)"

definition Linear_call :: "Linear \<Rightarrow> mat \<Rightarrow> mat" where
  "Linear_call l X = map (Linear_row l) X"

definition relu :: "mat \<Rightarrow> mat" where
  "relu X = map (map (max 0)) X"

definition sigmoid :: "mat \<Rightarrow> mat" where
  "sigmoid X = map (map (\<lambda>x. 1 / (1 + exp (- x)))) X"

text \<open>
  The module object. \<open>lr\<close> is the step size held by the optimizer's parameter group and
  \<open>optimizer_state\<close> the optimizer's own buffers, of a type left open; \<open>training\<close> is the
  flag that \<^verbatim>\<open>model.train()\<close> and \<^verbatim>\<open>model.eval()\<close> set.
\<close>

record 'o FeatureMLP =
  only_feature_extraction :: bool
  n_hidden_units :: nat
  fc1 :: Linear
  fc2 :: Linear
  fc3 :: Linear
  training :: bool
  lr :: real
  optimizer_state :: 'o

definition FeatureMLP_init ::
  "Linear \<Rightarrow> Linear \<Rightarrow> Linear \<Rightarrow> 'o \<Rightarrow> bool \<Rightarrow> nat \<Rightarrow> 'o FeatureMLP" where
  \<comment> \<open>the freshly drawn layers and the empty optimizer state are arguments\<close>
  "FeatureMLP_init l1 l2 l3 st ofe nh =
     \<lparr>only_feature_extraction = ofe, n_hidden_units = nh,
      fc1 = l1, fc2 = l2, fc3 = l3, training = True, lr = 1 / 1000, optimizer_state = st\<rparr>"

definition forward :: "'o FeatureMLP \<Rightarrow> mat \<Rightarrow> mat \<times> 'o FeatureMLP" where
  \<comment> \<open>returns the output and the module as the call leaves it\<close>
  "forward self x =
     (let x = relu (Linear_call (fc1 self) x);
          x = relu (Linear_call (fc2 self) x);
          x = (if \<not> only_feature_extraction self then sigmoid (Linear_call (fc3 self) x) else x)
      in (x, self))"

section \<open>The loss module\<close>

text \<open>
  \<^verbatim>\<open>nn.BCELoss(reduction='sum')\<close>. The argument \<open>lg\<close> is the logarithm as the library
  applies it to each element. The sum is over exact reals, where the library accumulates
  32-bit floats: which elements are summed is as in the library, the rounding of the
  accumulation is not represented.
\<close>

definition bce :: "(real \<Rightarrow> real) \<Rightarrow> real \<Rightarrow> real \<Rightarrow> real" where
  "bce lg p t = - (t * lg p + (1 - t) * lg (1 - p))"

definition loss_fn :: "(real \<Rightarrow> real) \<Rightarrow> mat \<Rightarrow> mat \<Rightarrow> real" where
  "loss_fn lg P T = sum_list (map2 (bce lg) (concat P) (concat T))"

section \<open>Rounding to 0/1 and the mean of a list\<close>

definition torch_round :: "real \<Rightarrow> int" where
  \<comment> \<open>\<^verbatim>\<open>output.round().int()\<close>: nearest integer, a half goes to the even one\<close>
  "torch_round x =
     (let f = \<lfloor>x\<rfloor>; d = x - of_int f
      in if d < 1 / 2 then f else if 1 / 2 < d then f + 1 else if even f then f else f + 1)"

definition round_int :: "mat \<Rightarrow> int list list" where
  "round_int X = map (map torch_round) X"

definition np_mean :: "real list \<Rightarrow> real option" where
  \<comment> \<open>\<^verbatim>\<open>np.mean\<close>; \<open>None\<close> is the \<^verbatim>\<open>nan\<close> that numpy gives for an empty list\<close>
  "np_mean xs = (if xs = [] then None else Some (sum_list xs / real (length xs)))"

section \<open>Datasets and loaders\<close>

definition MyDataset_getitem :: "mat \<times> mat \<Rightarrow> nat \<Rightarrow> vec \<times> vec" where
  \<comment> \<open>Modelled from the spec: \<^verbatim>\<open>MyDataset\<close> of \<^verbatim>\<open>auxiliary_functions\<close>, an indexable
      collection of (features, label-vector) pairs over the two matrices.\<close>
  "MyDataset_getitem data i = (fst data ! i, snd data ! i)"

datatype sampler = SubsetRandomSampler "nat list" | SequentialSampler

record DataLoader =
  loader_dataset :: "mat \<times> mat"
  loader_batch_size :: nat
  loader_sampler :: sampler

fun sampler_iter :: "sampler \<Rightarrow> nat \<Rightarrow> (nat \<Rightarrow> nat list) \<Rightarrow> nat list" where
  \<comment> \<open>\<open>randperm k\<close> is the permutation of \<open>0..<k\<close> drawn for this pass\<close>
  "sampler_iter (SubsetRandomSampler ind) n randperm = map (\<lambda>i. ind ! i) (randperm (length ind))"
| "sampler_iter SequentialSampler n randperm = [0..<n]"

function batched :: "nat \<Rightarrow> 'a list \<Rightarrow> 'a list list" where
  "batched k xs = (if k = 0 \<or> xs = [] then [] else take k xs # batched k (drop k xs))"
  by pat_completeness auto
termination
  by (relation "measure (\<lambda>(k, xs). length xs)") auto

declare batched.simps [simp del]

definition collate :: "(vec \<times> vec) list \<Rightarrow> mat \<times> mat" where
  "collate items = (map fst items, map snd items)"

definition DataLoader_iter :: "DataLoader \<Rightarrow> (nat \<Rightarrow> nat list) \<Rightarrow> (mat \<times> mat) list" where
  "DataLoader_iter loader randperm =
     map (\<lambda>batch. collate (map (MyDataset_getitem (loader_dataset loader)) batch))
       (batched (loader_batch_size loader)
          (sampler_iter (loader_sampler loader) (length (fst (loader_dataset loader))) randperm))"

section \<open>\<open>FeatureNetwork\<close>\<close>

text \<open>
  \<^verbatim>\<open>indices = list(range(len(inputs)))\<close>, with the shuffle commented out; the samplers
  receive \<^verbatim>\<open>indices[:self.n_train]\<close> and \<^verbatim>\<open>indices[self.n_train:]\<close>. The fields
  \<open>dim_input\<close>, \<open>n_labels\<close> and \<open>device\<close> only size and place the module's layers, which
  are arguments here.
\<close>

record 'o FeatureNetwork =
  model :: "'o FeatureMLP"
  batch_size :: nat
  batch_size_eval :: nat
  n_train :: nat
  train_loader :: DataLoader
  valid_loader :: DataLoader

definition FeatureNetwork_init ::
  "mat \<Rightarrow> mat \<Rightarrow> Linear \<Rightarrow> Linear \<Rightarrow> Linear \<Rightarrow> 'o \<Rightarrow> 'o FeatureNetwork" where
  "FeatureNetwork_init inputs labels l1 l2 l3 st =
     (let m = FeatureMLP_init l1 l2 l3 st False 150;
          n = compute_n_train (length inputs);
          indices = [0..<length inputs];
          train_data = (inputs, labels)
      in \<lparr>model = m, batch_size = 64, batch_size_eval = 64, n_train = n,
          train_loader = \<lparr>loader_dataset = train_data, loader_batch_size = 64,
                          loader_sampler = SubsetRandomSampler (take n indices)\<rparr>,
          valid_loader = \<lparr>loader_dataset = train_data, loader_batch_size = 64,
                          loader_sampler = SubsetRandomSampler (drop n indices)\<rparr>\<rparr>)"

definition sampler_indices :: "DataLoader \<Rightarrow> nat list" where
  \<comment> \<open>the index list a loader's sampler draws from\<close>
  "sampler_indices loader =
     (case loader_sampler loader of
        SubsetRandomSampler ind \<Rightarrow> ind
      | SequentialSampler \<Rightarrow> [0..<length (fst (loader_dataset loader))])"

datatype error = ZeroDivisionError

subsection \<open>\<open>train\<close>\<close>

text \<open>
  \<^verbatim>\<open>loss.backward()\<close> followed by \<^verbatim>\<open>optimizer.step()\<close> is an argument: from the module
  and the batch it yields the optimizer's new buffers and the three updated layers.
  The progress line printed every tenth batch is left out.
\<close>

type_synonym 'o optimizer = "'o FeatureMLP \<Rightarrow> mat \<Rightarrow> mat \<Rightarrow> 'o \<times> Linear \<times> Linear \<times> Linear"

definition optimizer_step :: "'o optimizer \<Rightarrow> 'o FeatureMLP \<Rightarrow> mat \<Rightarrow> mat \<Rightarrow> 'o FeatureMLP" where
  "optimizer_step adam m x targets =
     (case adam m x targets of
        (st, l1, l2, l3) \<Rightarrow> m\<lparr>fc1 := l1, fc2 := l2, fc3 := l3, optimizer_state := st\<rparr>)"

fun train_loop ::
  "(real \<Rightarrow> real) \<Rightarrow> 'o optimizer \<Rightarrow> (mat \<times> mat) list \<Rightarrow> real \<times> nat \<times> 'o FeatureMLP
     \<Rightarrow> real \<times> nat \<times> 'o FeatureMLP" where
  "train_loop lg adam [] st = st"
| "train_loop lg adam ((x, targets) # rest) (t_loss, t_size, m) =
     (let t_size = t_size + length x;
          (output, m) = forward m x;
          loss = loss_fn lg output targets;
          t_loss = t_loss + loss;
          m = optimizer_step adam m x targets
      in train_loop lg adam rest (t_loss, t_size, m))"

definition train ::
  "(real \<Rightarrow> real) \<Rightarrow> 'o optimizer \<Rightarrow> 'o FeatureNetwork \<Rightarrow> (nat \<Rightarrow> nat list)
     \<Rightarrow> error + real \<times> 'o FeatureNetwork" where
  "train lg adam self randperm =
     (let m = (model self)\<lparr>training := True\<rparr>;
          (t_loss, t_size, m) =
             train_loop lg adam (DataLoader_iter (train_loader self) randperm) (0, 0, m)
      in if t_size = 0 then Inl ZeroDivisionError
         else Inr (t_loss / real t_size, self\<lparr>model := m\<rparr>))"

subsection \<open>\<open>valid\<close>\<close>

text \<open>
  \<open>f1\<close> stands for \<^verbatim>\<open>compute_f1_score\<close> of \<^verbatim>\<open>auxiliary_functions\<close>. With no batch,
  \<^verbatim>\<open>loss\<close> and \<^verbatim>\<open>t_size\<close> are still the ints \<open>0\<close> and \<^verbatim>\<open>loss /= t_size\<close> raises.
\<close>

fun valid_loop ::
  "(mat \<Rightarrow> int list list \<Rightarrow> real) \<Rightarrow> (real \<Rightarrow> real) \<Rightarrow> (mat \<times> mat) list
     \<Rightarrow> real \<times> nat \<times> real list \<times> 'o FeatureMLP \<Rightarrow> real \<times> nat \<times> real list \<times> 'o FeatureMLP" where
  "valid_loop f1 lg [] st = st"
| "valid_loop f1 lg ((x, targets) # rest) (loss, t_size, mean_f1, m) =
     (let t_size = t_size + length x;
          (output, m) = forward m x;
          loss = loss + loss_fn lg output targets;
          output_in_0_1 = round_int output;
          f1v = f1 targets output_in_0_1;
          mean_f1 = mean_f1 @ [f1v]
      in valid_loop f1 lg rest (loss, t_size, mean_f1, m))"

definition valid ::
  "(mat \<Rightarrow> int list list \<Rightarrow> real) \<Rightarrow> (real \<Rightarrow> real) \<Rightarrow> 'o FeatureNetwork \<Rightarrow> (nat \<Rightarrow> nat list)
     \<Rightarrow> error + (real \<times> real option) \<times> 'o FeatureNetwork" where
  "valid f1 lg self randperm =
     (let m = (model self)\<lparr>training := False\<rparr>;
          (loss, t_size, mean_f1, m) =
             valid_loop f1 lg (DataLoader_iter (valid_loader self) randperm) (0, 0, [], m);
          mean_f1 = np_mean mean_f1
      in if t_size = 0 then Inl ZeroDivisionError
         else Inr ((loss / real t_size, mean_f1), self\<lparr>model := m\<rparr>))"

subsection \<open>\<open>test\<close>\<close>

fun test_loop ::
  "(real \<Rightarrow> real) \<Rightarrow> (mat \<times> mat) list
     \<Rightarrow> real \<times> nat \<times> int list list list \<times> 'o FeatureMLP
     \<Rightarrow> real \<times> nat \<times> int list list list \<times> 'o FeatureMLP" where
  "test_loop lg [] st = st"
| "test_loop lg ((x, targets) # rest) (loss, t_size, outputs, m) =
     (let t_size = t_size + length x;
          (output, m) = forward m x;
          loss = loss + loss_fn lg output targets;
          output_in_0_1 = round_int output;
          outputs = outputs @ [output_in_0_1]
      in test_loop lg rest (loss, t_size, outputs, m))"

definition test ::
  "(mat \<Rightarrow> int list list \<Rightarrow> real) \<Rightarrow> (real \<Rightarrow> real) \<Rightarrow> 'o FeatureNetwork \<Rightarrow> DataLoader
     \<Rightarrow> (nat \<Rightarrow> nat list) \<Rightarrow> mat \<Rightarrow> error + (real \<times> real) \<times> 'o FeatureNetwork" where
  "test f1 lg self test_loader randperm test_labels =
     (let m = (model self)\<lparr>training := False\<rparr>;
          (loss, t_size, outputs, m) =
             test_loop lg (DataLoader_iter test_loader randperm) (0, 0, [], m)
      in if t_size = 0 then Inl ZeroDivisionError
         else
           let loss = loss / real t_size;
               outputs = concat outputs;
               f1v = f1 test_labels outputs
           in Inr ((loss, f1v), self\<lparr>model := m\<rparr>))"

section \<open>The entry point\<close>

record StepLR =
  step_size :: nat
  gamma :: real
  last_epoch :: nat

definition StepLR_init :: "nat \<Rightarrow> real \<Rightarrow> StepLR" where
  "StepLR_init n g = \<lparr>step_size = n, gamma = g, last_epoch = 0\<rparr>"

definition StepLR_step :: "StepLR \<Rightarrow> 'o FeatureMLP \<Rightarrow> StepLR \<times> 'o FeatureMLP" where
  \<comment> \<open>\<^verbatim>\<open>scheduler.step()\<close>: count the epoch, scale the optimizer's step size at each
      multiple of \<open>step_size\<close>\<close>
  "StepLR_step scheduler m =
     (let scheduler = scheduler\<lparr>last_epoch := last_epoch scheduler + 1\<rparr>
      in if last_epoch scheduler = 0 \<or> last_epoch scheduler mod step_size scheduler \<noteq> 0
         then (scheduler, m)
         else (scheduler, m\<lparr>lr := lr m * gamma scheduler\<rparr>))"

record results =
  loss_train :: "real list"
  loss_valid :: "real list"
  f1_valid :: "real option list"

text \<open>
  The loop \<^verbatim>\<open>for epoch in range(1)\<close>, over any list of epochs; \<open>rp_train epoch\<close> and
  \<open>rp_valid epoch\<close> are the permutations drawn by the two loaders in that epoch.
\<close>

fun epochs ::
  "(mat \<Rightarrow> int list list \<Rightarrow> real) \<Rightarrow> (real \<Rightarrow> real) \<Rightarrow> 'o optimizer
     \<Rightarrow> (nat \<Rightarrow> nat \<Rightarrow> nat list) \<Rightarrow> (nat \<Rightarrow> nat \<Rightarrow> nat list) \<Rightarrow> nat list
     \<Rightarrow> 'o FeatureNetwork \<times> StepLR \<times> results
     \<Rightarrow> error + 'o FeatureNetwork \<times> StepLR \<times> results" where
  "epochs f1 lg adam rp_train rp_valid [] st = Inr st"
| "epochs f1 lg adam rp_train rp_valid (epoch # rest) (F_Net, scheduler, res) =
     (case train lg adam F_Net (rp_train epoch) of
        Inl e \<Rightarrow> Inl e
      | Inr (l_train, F_Net) \<Rightarrow>
          (case valid f1 lg F_Net (rp_valid epoch) of
             Inl e \<Rightarrow> Inl e
           | Inr ((l_valid, mean_f1), F_Net) \<Rightarrow>
               let (scheduler, m) = StepLR_step scheduler (model F_Net);
                   F_Net = F_Net\<lparr>model := m\<rparr>;
                   res = res\<lparr>loss_train := loss_train res @ [l_train],
                             loss_valid := loss_valid res @ [l_valid],
                             f1_valid := f1_valid res @ [mean_f1]\<rparr>
               in epochs f1 lg adam rp_train rp_valid rest (F_Net, scheduler, res)))"

definition n_epochs :: nat where
  "n_epochs = 1"

definition main ::
  "(mat \<Rightarrow> int list list \<Rightarrow> real) \<Rightarrow> (real \<Rightarrow> real) \<Rightarrow> 'o optimizer
     \<Rightarrow> (nat \<Rightarrow> nat \<Rightarrow> nat list) \<Rightarrow> (nat \<Rightarrow> nat \<Rightarrow> nat list)
     \<Rightarrow> Linear \<Rightarrow> Linear \<Rightarrow> Linear \<Rightarrow> 'o \<Rightarrow> mat \<times> mat \<Rightarrow> mat \<times> mat
     \<Rightarrow> error + results \<times> (real \<times> real) \<times> 'o FeatureNetwork" where
  \<comment> \<open>the two pairs are (labels, inputs) as \<^verbatim>\<open>get_bibtex\<close> returns them\<close>
  "main f1 lg adam rp_train rp_valid l1 l2 l3 st train_set test_set =
     (let F_Net = FeatureNetwork_init (snd train_set) (fst train_set) l1 l2 l3 st;
          res = \<lparr>loss_train = [], loss_valid = [], f1_valid = []\<rparr>;
          scheduler = StepLR_init 25 (1 / 10)
      in case epochs f1 lg adam rp_train rp_valid [0..<n_epochs] (F_Net, scheduler, res) of
           Inl e \<Rightarrow> Inl e
         | Inr (F_Net, scheduler, res) \<Rightarrow>
             let test_loader = \<lparr>loader_dataset = (snd test_set, fst test_set),
                                loader_batch_size = batch_size_eval F_Net,
                                loader_sampler = SequentialSampler\<rparr>
             in (case test f1 lg F_Net test_loader (\<lambda>k. []) (fst test_set) of
                   Inl e \<Rightarrow> Inl e
                 | Inr (r, F_Net) \<Rightarrow> Inr (res, r, F_Net)))"

section \<open>Reference formulations\<close>

text \<open>
  The loss, the rounded output and the F1 score of one batch on a fixed module, and the
  list of batch losses that an epoch of training meets, each taken on the module
  as the preceding optimizer steps left it.
\<close>

fun train_losses ::
  "(real \<Rightarrow> real) \<Rightarrow> 'o optimizer \<Rightarrow> (mat \<times> mat) list \<Rightarrow> 'o FeatureMLP \<Rightarrow> real list" where
  "train_losses lg adam [] m = []"
| "train_losses lg adam ((x, targets) # rest) m =
     loss_fn lg (fst (forward m x)) targets
       # train_losses lg adam rest (optimizer_step adam m x targets)"

definition batch_loss :: "(real \<Rightarrow> real) \<Rightarrow> 'o FeatureMLP \<Rightarrow> mat \<times> mat \<Rightarrow> real" where
  "batch_loss lg m batch = loss_fn lg (fst (forward m (fst batch))) (snd batch)"

definition batch_output :: "'o FeatureMLP \<Rightarrow> mat \<times> mat \<Rightarrow> int list list" where
  "batch_output m batch = round_int (fst (forward m (fst batch)))"

definition batch_f1 ::
  "(mat \<Rightarrow> int list list \<Rightarrow> real) \<Rightarrow> 'o FeatureMLP \<Rightarrow> mat \<times> mat \<Rightarrow> real" where
  "batch_f1 f1 m batch = f1 (snd batch) (batch_output m batch)"

fun train_final :: "'o optimizer \<Rightarrow> (mat \<times> mat) list \<Rightarrow> 'o FeatureMLP \<Rightarrow> 'o FeatureMLP" where
  "train_final adam [] m = m"
| "train_final adam ((x, targets) # rest) m = train_final adam rest (optimizer_step adam m x targets)"

section \<open>A small instance\<close>

text \<open>
  Three examples with one feature and one label, layers whose weights and biases are
  zero, an optimizer step that changes nothing, the reversal as the drawn permutation
  and an exact-match score in the place of the F1 score. The theorems below are
  exercised on it.
\<close>

definition toy_layer :: Linear where
  "toy_layer = \<lparr>weight = [[0]], bias = [0]\<rparr>"

definition toy_inputs :: mat where
  "toy_inputs = [[1], [2], [3]]"

definition toy_labels :: mat where
  "toy_labels = [[1], [0], [1]]"

definition toy_net :: "unit FeatureNetwork" where
  "toy_net = FeatureNetwork_init toy_inputs toy_labels toy_layer toy_layer toy_layer ()"

definition toy_adam :: "unit optimizer" where
  "toy_adam m x targets = (optimizer_state m, fc1 m, fc2 m, fc3 m)"

definition toy_randperm :: "nat \<Rightarrow> nat list" where
  "toy_randperm k = rev [0..<k]"

definition toy_score :: "mat \<Rightarrow> int list list \<Rightarrow> real" where
  "toy_score targets output = (if round_int targets = output then 1 else 0)"

definition toy_test_loader :: DataLoader where
  "toy_test_loader = \<lparr>loader_dataset = (toy_inputs, toy_labels), loader_batch_size = 2,
      loader_sampler = SequentialSampler\<rparr>"

definition toy_after :: "real \<Rightarrow> unit FeatureNetwork" where
  "toy_after r = toy_net\<lparr>model := (model toy_net)\<lparr>training := False, lr := r\<rparr>\<rparr>"

section \<open>Properties of the partition size\<close>

lemma bit_length_le: "n < 2 ^ k \<Longrightarrow> bit_length n \<le> k"
proof (induction k arbitrary: n)
  case 0
  then show ?case by (simp add: bit_length.simps)
next
  case (Suc k)
  show ?case
  proof (cases "n = 0")
    case True
    then show ?thesis by (simp add: bit_length.simps)
  next
    case False
    from Suc.prems have "n div 2 < 2 ^ k" by simp
    then have "bit_length (n div 2) \<le> k" by (rule Suc.IH)
    with False show ?thesis by (subst bit_length.simps) simp
  qed
qed

lemma float_of_int_exact: "n < 2 ^ 53 \<Longrightarrow> float_of_int n = (n, 0)"
  using bit_length_le [of n 53] by (simp add: float_of_int_def round_double_def)

text \<open>
  The rounded product, as a significand \<open>q'\<close> at exponent \<open>s - 53\<close>, truncates to
  \<open>9 * N div 10\<close> whenever it is within half a unit in the last place of the exact
  product and that unit is at most \<open>2^50 / 2^53\<close>.
\<close>

lemma n_train_core:
  fixes N s q' :: nat
  assumes N: "N < 2 ^ 50" and s: "s \<le> 50"
    and lo: "(N * 8106479329266893) div 2 ^ s \<le> q'"
    and hi: "2 * (q' * 2 ^ s) \<le> 2 * (N * 8106479329266893) + 2 ^ s"
  shows "q' div 2 ^ (53 - s) = 9 * N div 10"
proof -
  define k where "k = 9 * N div 10"
  define T :: nat where "T = 2 ^ (53 - s)"
  define a where "a = N * 8106479329266893"
  have P: "T * 2 ^ s = (2::nat) ^ 53"
    using s by (simp add: T_def flip: power_add)
  have k1: "10 * k \<le> 9 * N" and k2: "9 * N \<le> 10 * k + 9"
    by (simp_all add: k_def)
  have a10: "10 * a = 9 * N * 2 ^ 53 + 2 * N"
    by (simp add: a_def)
  have "10 * (k * 2 ^ 53) \<le> 10 * a"
    using k1 a10 by (simp add: algebra_simps)
  then have "k * 2 ^ 53 \<le> a" by simp
  then have "k * T * 2 ^ s \<le> a" using P by (simp add: mult.assoc)
  then have "k * T \<le> a div 2 ^ s"
    by (simp add: less_eq_div_iff_mult_less_eq)
  with lo have lower: "T * k \<le> q'" by (simp add: a_def mult.commute)
  have s50: "(2::nat) ^ s \<le> 2 ^ 50"
    using s by (intro power_increasing) simp_all
  have upper: "q' < T * Suc k"
  proof (rule ccontr)
    assume "\<not> q' < T * Suc k"
    then have "T * Suc k \<le> q'" by simp
    then have "T * Suc k * 2 ^ s \<le> q' * 2 ^ s" by simp
    moreover have "T * Suc k * 2 ^ s = Suc k * 2 ^ 53"
      unfolding P [symmetric] by (simp only: ac_simps)
    ultimately have "Suc k * 2 ^ 53 \<le> q' * 2 ^ s"
      by (simp only:)
    with hi s50 have "2 * (Suc k * 2 ^ 53) \<le> 2 * a + 2 ^ 50"
      by (simp add: a_def)
    then have "20 * (Suc k * 2 ^ 53) \<le> 2 * (10 * a) + 10 * 2 ^ 50" by simp
    also have "\<dots> \<le> 2 * ((10 * k + 9) * 2 ^ 53 + 2 * N) + 10 * 2 ^ 50"
      using k2 a10 by simp
    finally show False using N by simp
  qed
  from lower upper show ?thesis
    unfolding k_def [symmetric] T_def [symmetric] by (rule div_nat_eqI)
qed

lemma compute_n_train_eq:
  assumes N: "N < 2 ^ 50"
  shows "compute_n_train N = 9 * N div 10"
proof -
  define a where "a = N * 8106479329266893"
  have N53: "N < 2 ^ 53"
    using N by simp
  have "a < 2 ^ 50 * 2 ^ 53"
    unfolding a_def using N by (intro mult_strict_mono) simp_all
  then have "a < 2 ^ 103" by simp
  then have L: "bit_length a \<le> 103" by (rule bit_length_le)
  have mul: "float_mul (float_of_int N) float_0_90 = round_double a (- 53)"
    by (simp add: float_mul_def float_of_int_exact [OF N53] float_0_90_def a_def)
  show ?thesis
  proof (cases "bit_length a \<le> 53")
    case True
    have "a div 2 ^ (53 - 0) = 9 * N div 10"
      unfolding a_def by (rule n_train_core [OF N]) simp_all
    with True show ?thesis
      by (simp add: compute_n_train_def mul round_double_def int_of_float_def)
  next
    case False
    define s where "s = bit_length a - 53"
    define q where "q = a div 2 ^ s"
    define r where "r = a mod 2 ^ s"
    define q' where "q' = (if 2 ^ s < 2 * r then q + 1
                  else if 2 * r = 2 ^ s \<and> odd q then q + 1
                  else q)"
    have s: "s \<le> 50" "0 < s" using L False by (simp_all add: s_def)
    have a: "a = q * 2 ^ s + r"
      unfolding q_def r_def by (rule div_mult_mod_eq [symmetric])
    have lo: "a div 2 ^ s \<le> q'" by (simp add: q'_def q_def)
    have hi: "2 * (q' * 2 ^ s) \<le> 2 * a + 2 ^ s"
      by (auto simp add: q'_def a algebra_simps)
    have "q' div 2 ^ (53 - s) = 9 * N div 10"
      using lo hi unfolding a_def by (rule n_train_core [OF N s(1)])
    moreover have "round_double a (- 53) = (q', - 53 + int s)"
      using False by (simp add: round_double_def Let_def s_def q_def r_def q'_def)
    moreover have "nat (53 - int s) = 53 - s" by simp
    ultimately show ?thesis
      using s by (simp add: compute_n_train_def mul int_of_float_def)
  qed
qed

lemma floor_nine_tenths: "\<lfloor>9 / 10 * real N\<rfloor> = int (9 * N div 10)"
proof -
  have "9 / 10 * real N = real (9 * N) / real 10" by simp
  then show ?thesis by (simp only: floor_divide_of_nat_eq)
qed

text \<open>
  Whatever the size, the rounded product stays below it: each of the two roundings adds
  at most one part in \<open>2^53\<close>, and \<open>0.90\<close> leaves room for both.
\<close>

lemma bit_length_ge: "n \<noteq> 0 \<Longrightarrow> 2 ^ bit_length n \<le> 2 * n"
proof (induction n rule: bit_length.induct)
  case (1 n)
  show ?case
  proof (cases "n div 2 = 0")
    case True
    then have "bit_length (n div 2) = 0" by (simp add: bit_length.simps)
    with "1.prems" show ?thesis by (subst bit_length.simps) simp
  next
    case False
    with "1.IH" "1.prems" have "2 ^ bit_length (n div 2) \<le> 2 * (n div 2)" by simp
    also have "\<dots> \<le> n" by simp
    finally show ?thesis using "1.prems" by (subst bit_length.simps) simp
  qed
qed

lemma round_double_upper:
  "\<exists>s. round_double m e = (fst (round_double m e), e + int s)
       \<and> fst (round_double m e) * 2 ^ s * 2 ^ 53 \<le> m * (2 ^ 53 + 1)"
proof (cases "bit_length m \<le> 53")
  case True
  then have "round_double m e = (m, e + int 0)" by (simp add: round_double_def)
  then show ?thesis by (intro exI [of _ 0]) simp
next
  case False
  define s where "s = bit_length m - 53"
  define q where "q = m div 2 ^ s"
  define r where "r = m mod 2 ^ s"
  define q' where "q' = (if 2 ^ s < 2 * r then q + 1
                  else if 2 * r = 2 ^ s \<and> odd q then q + 1
                  else q)"
  have rd: "round_double m e = (q', e + int s)"
    using False by (simp add: round_double_def Let_def s_def q_def r_def q'_def)
  have m: "m = q * 2 ^ s + r"
    unfolding q_def r_def by (rule div_mult_mod_eq [symmetric])
  have hi: "2 * (q' * 2 ^ s) \<le> 2 * m + 2 ^ s"
    by (auto simp add: q'_def m algebra_simps)
  have "m \<noteq> 0" using False by (subst (asm) bit_length.simps) (simp split: if_splits)
  then have "2 ^ bit_length m \<le> 2 * m" by (rule bit_length_ge)
  moreover have "bit_length m = s + 53" using False by (simp add: s_def)
  ultimately have ulp: "2 ^ s * 2 ^ 53 \<le> 2 * m" by (simp add: power_add)
  have "2 * (q' * 2 ^ s) * 2 ^ 53 \<le> (2 * m + 2 ^ s) * 2 ^ 53"
    using hi by (rule mult_le_mono1)
  also have "\<dots> = 2 * m * 2 ^ 53 + 2 ^ s * 2 ^ 53" by (simp add: algebra_simps)
  also have "\<dots> \<le> 2 * m * 2 ^ 53 + 2 * m" using ulp by simp
  finally have "q' * 2 ^ s * 2 ^ 53 \<le> m * (2 ^ 53 + 1)" by (simp add: algebra_simps)
  with rd show ?thesis by (intro exI [of _ s]) simp
qed

lemma int_of_float_upper:
  "int_of_float (q, int s - 53) * 2 ^ 53 \<le> q * 2 ^ s"
proof (cases "53 \<le> s")
  case True
  then have "int_of_float (q, int s - 53) = q * 2 ^ (s - 53)"
    by (simp add: int_of_float_def nat_diff_distrib')
  then have "int_of_float (q, int s - 53) * 2 ^ 53 = q * (2 ^ (s - 53) * 2 ^ 53)"
    by (simp only: mult.assoc)
  also have "\<dots> = q * 2 ^ s"
    using True by (simp only: power_add [symmetric] le_add_diff_inverse2)
  finally show ?thesis by simp
next
  case False
  then have "nat (53 - int s) = 53 - s" by simp
  with False have "int_of_float (q, int s - 53) = q div 2 ^ (53 - s)"
    by (simp add: int_of_float_def)
  moreover have "(2::nat) ^ 53 = 2 ^ (53 - s) * 2 ^ s"
    using False by (simp only: power_add [symmetric]) simp
  ultimately have "int_of_float (q, int s - 53) * 2 ^ 53 = (q div 2 ^ (53 - s) * 2 ^ (53 - s)) * 2 ^ s"
    by (simp only: mult.assoc)
  also have "\<dots> \<le> q * 2 ^ s"
    by (rule mult_le_mono1) simp
  finally show ?thesis .
qed

lemma compute_n_train_less:
  assumes "0 < N"
  shows "compute_n_train N < N"
proof -
  define P :: nat where "P = 2 ^ 53"
  define M :: nat where "M = 8106479329266893"
  obtain s1 where f1: "float_of_int N = (fst (float_of_int N), int s1)"
    and a: "fst (float_of_int N) * 2 ^ s1 * P \<le> N * (P + 1)"
    using round_double_upper [of N 0] unfolding float_of_int_def P_def by auto
  define q1 where "q1 = fst (float_of_int N)"
  define prod where "prod = float_mul (float_of_int N) float_0_90"
  have prod: "prod = round_double (q1 * M) (int s1 - 53)"
    unfolding prod_def by (subst f1) (simp add: float_mul_def float_0_90_def q1_def M_def)
  obtain s2 where f2: "prod = (fst prod, int s1 - 53 + int s2)"
    and b: "fst prod * 2 ^ s2 * P \<le> q1 * M * (P + 1)"
    using round_double_upper [of "q1 * M" "int s1 - 53"] unfolding prod P_def by auto
  define q2 where "q2 = fst prod"
  define r where "r = compute_n_train N"
  have "int s1 - 53 + int s2 = int (s1 + s2) - 53" by simp
  then have "prod = (q2, int (s1 + s2) - 53)"
    using f2 by (simp only: q2_def)
  then have "r = int_of_float (q2, int (s1 + s2) - 53)"
    unfolding r_def compute_n_train_def prod_def [symmetric] by (simp only:)
  then have c: "r * P \<le> q2 * 2 ^ (s1 + s2)"
    unfolding P_def by (simp only: int_of_float_upper)
  have "r * P * (P * P) \<le> q2 * 2 ^ (s1 + s2) * (P * P)"
    using c by (rule mult_le_mono1)
  also have "\<dots> = (q2 * 2 ^ s2 * P) * (2 ^ s1 * P)"
    by (simp add: power_add ac_simps)
  also have "\<dots> \<le> (q1 * M * (P + 1)) * (2 ^ s1 * P)"
    using b unfolding q2_def by (rule mult_le_mono1)
  also have "\<dots> = (q1 * 2 ^ s1 * P) * (M * (P + 1))"
    by (simp only: ac_simps)
  also have "\<dots> \<le> (N * (P + 1)) * (M * (P + 1))"
    using a unfolding q1_def by (rule mult_le_mono1)
  also have "\<dots> = N * (M * (P + 1) * (P + 1))"
    by (simp only: ac_simps)
  also have "\<dots> < N * (P * (P * P))"
  proof -
    have "M * (P + 1) * (P + 1) < P * (P * P)" by (simp add: M_def P_def)
    with assms show ?thesis by simp
  qed
  finally have "r * (P * (P * P)) < N * (P * (P * P))" by (simp only: ac_simps)
  then show ?thesis unfolding r_def by simp
qed

lemma bit_length_gt: "n < 2 ^ bit_length n"
proof (induction n rule: bit_length.induct)
  case (1 n)
  show ?case
  proof (cases "n = 0")
    case True
    then show ?thesis by simp
  next
    case False
    with "1.IH" have "n div 2 < 2 ^ bit_length (n div 2)" by simp
    then have "n < 2 * 2 ^ bit_length (n div 2)" by simp
    with False show ?thesis by (subst bit_length.simps) simp
  qed
qed

lemma bit_length_eq:
  assumes "2 ^ k \<le> n" and "n < 2 ^ Suc k"
  shows "bit_length n = Suc k"
proof -
  have "bit_length n \<le> Suc k" using assms(2) by (rule bit_length_le)
  moreover have "(2::nat) ^ k < 2 ^ bit_length n"
    using assms(1) bit_length_gt [of n] by (rule le_less_trans)
  then have "k < bit_length n" by (simp only: power_strict_increasing_iff)
  ultimately show ?thesis by simp
qed

text \<open>
  The bound \<open>2^50\<close> of \<open>compute_n_train_eq\<close> is not an artefact of its proof. Just above
  \<open>2^50 / 0.9\<close> the doubles are a quarter apart and the product rounds up past the next
  integer; an index list of that length, which \<open>__init__\<close> builds in full, is far beyond
  the memory of any machine.
\<close>

lemma compute_n_train_beyond:
  "compute_n_train 1251046720521771 = 1125942048469594
   \<and> 9 * 1251046720521771 div 10 = (1125942048469593 :: nat)"
proof -
  have f: "float_of_int 1251046720521771 = (1251046720521771, 0)"
    by (rule float_of_int_exact) simp
  have bl: "bit_length 10141584379856872318351876027503 = Suc 103"
    by (rule bit_length_eq) simp_all
  have "float_mul (float_of_int 1251046720521771) float_0_90 = (4503768193878376, - 2)"
    by (simp add: f float_mul_def float_0_90_def round_double_def bl Let_def)
  then show ?thesis
    by (simp add: compute_n_train_def int_of_float_def)
qed

section \<open>The partition\<close>

lemma init_train_indices:
  "sampler_indices (train_loader (FeatureNetwork_init inputs labels l1 l2 l3 st)) =
     take (compute_n_train (length inputs)) [0..<length inputs]"
  by (simp add: FeatureNetwork_init_def sampler_indices_def Let_def)

lemma init_valid_indices:
  "sampler_indices (valid_loader (FeatureNetwork_init inputs labels l1 l2 l3 st)) =
     drop (compute_n_train (length inputs)) [0..<length inputs]"
  by (simp add: FeatureNetwork_init_def sampler_indices_def Let_def)

text \<open>
  Claim C1. For a dataset of \<open>N\<close> examples the training and validation index lists
  together have \<open>N\<close> entries, are disjoint and cover \<open>0..<N\<close>, the training list
  followed by the validation list being the index range in its original order. For
  \<open>N\<close> below \<open>2^50\<close> the training list has \<open>\<lfloor>0.9 * N\<rfloor>\<close> entries and consists of the
  first \<open>\<lfloor>0.9 * N\<rfloor>\<close> indices in order.
\<close>

theorem partitioner_split:
  fixes inputs labels :: mat and l1 l2 l3 :: Linear and st :: 'o
  defines "self \<equiv> FeatureNetwork_init inputs labels l1 l2 l3 st"
  defines "tr \<equiv> sampler_indices (train_loader self)"
    and "va \<equiv> sampler_indices (valid_loader self)"
  shows "length tr + length va = length inputs
       \<and> set tr \<inter> set va = {}
       \<and> set tr \<union> set va = {0..<length inputs}
       \<and> tr @ va = [0..<length inputs]
       \<and> (length inputs < 2 ^ 50 \<longrightarrow>
            int (length tr) = \<lfloor>9 / 10 * real (length inputs)\<rfloor>
          \<and> tr = [0..<nat \<lfloor>9 / 10 * real (length inputs)\<rfloor>])"
proof -
  define n where "n = compute_n_train (length inputs)"
  have tr: "tr = take n [0..<length inputs]"
    by (simp add: tr_def self_def init_train_indices n_def)
  have va: "va = drop n [0..<length inputs]"
    by (simp add: va_def self_def init_valid_indices n_def)
  have app: "tr @ va = [0..<length inputs]"
    by (simp only: tr va append_take_drop_id)
  have "distinct (tr @ va)" by (simp only: app distinct_upt)
  then have disj: "set tr \<inter> set va = {}" by simp
  have "set (tr @ va) = {0..<length inputs}" by (simp only: app set_upt)
  then have un: "set tr \<union> set va = {0..<length inputs}" by simp
  have len: "length tr + length va = length inputs"
    by (simp add: tr va)
  have fl: "int (length tr) = \<lfloor>9 / 10 * real (length inputs)\<rfloor>
          \<and> tr = [0..<nat \<lfloor>9 / 10 * real (length inputs)\<rfloor>]"
    if "length inputs < 2 ^ 50"
  proof -
    have n: "n = 9 * length inputs div 10"
      unfolding n_def using that by (rule compute_n_train_eq)
    then have "n \<le> length inputs" by simp
    then have "tr = [0..<n]" by (simp add: tr take_upt)
    moreover have "\<lfloor>9 / 10 * real (length inputs)\<rfloor> = int n"
      by (simp only: floor_nine_tenths n)
    ultimately show ?thesis by (simp only: length_upt nat_int) simp
  qed
  from len disj un app fl show ?thesis by blast
qed

theorem partitioner_split_witness:
  "length (replicate 10 [0::real]) < 2 ^ 50
   \<and> sampler_indices (train_loader
        (FeatureNetwork_init (replicate 10 [0]) (replicate 10 [1])
           \<lparr>weight = [], bias = []\<rparr> \<lparr>weight = [], bias = []\<rparr> \<lparr>weight = [], bias = []\<rparr> ())) = [0..<9]
   \<and> sampler_indices (valid_loader
        (FeatureNetwork_init (replicate 10 [0]) (replicate 10 [1])
           \<lparr>weight = [], bias = []\<rparr> \<lparr>weight = [], bias = []\<rparr> \<lparr>weight = [], bias = []\<rparr> ())) = [9]"
  (is "?h \<and> ?tr = _ \<and> ?va = _")
proof -
  have h: ?h by simp
  have fl: "nat \<lfloor>9 / 10 * real (length (replicate 10 [0::real]))\<rfloor> = 9" by simp
  note t = partitioner_split [of "replicate 10 [0]" "replicate 10 [1]"
      "\<lparr>weight = [], bias = []\<rparr>" "\<lparr>weight = [], bias = []\<rparr>" "\<lparr>weight = [], bias = []\<rparr>" "()"]
  from t h have "?tr = [0..<nat \<lfloor>9 / 10 * real (length (replicate 10 [0::real]))\<rfloor>]"
    by blast
  then have tr: "?tr = [0..<9]" by (simp only: fl)
  from t have "?tr @ ?va = [0..<length (replicate 10 [0::real])]" by blast
  moreover have "[0..<length (replicate 10 [0::real])] = [0..<9] @ [9]"
    using upt_Suc_append [of 0 9] by simp
  ultimately have "[0..<9] @ ?va = [0..<9] @ [9]" by (simp only: tr)
  then have "?va = [9]" by (simp only: same_append_eq)
  with h tr show ?thesis by blast
qed

section \<open>The forward pass\<close>

lemma forward_snd: "snd (forward self x) = self"
  by (simp add: forward_def Let_def)

text \<open>
  Claim C5. With \<open>only_feature_extraction\<close> set, \<open>forward\<close> returns the hidden
  representation after the second layer, \<open>relu (fc2 (relu (fc1 x)))\<close>, with no third
  layer and no sigmoid; with the flag cleared it returns the sigmoid of the third layer
  applied to that same representation.
\<close>

theorem forward_modes_share_layers:
  "fst (forward (self\<lparr>only_feature_extraction := True\<rparr>) x)
     = relu (Linear_call (fc2 self) (relu (Linear_call (fc1 self) x)))
   \<and> fst (forward (self\<lparr>only_feature_extraction := False\<rparr>) x)
     = sigmoid (Linear_call (fc3 self)
         (fst (forward (self\<lparr>only_feature_extraction := True\<rparr>) x)))"
  by (simp add: forward_def Let_def)

text \<open>
  Claim C6. Setting the flag \<open>only_feature_extraction\<close> to either value leaves the three
  linear layers as they were, and a call of \<open>forward\<close> in either mode returns the module
  unchanged: it reads the parameters and writes nothing.
\<close>

theorem mode_flag_frame:
  "fc1 (self\<lparr>only_feature_extraction := b\<rparr>) = fc1 self
   \<and> fc2 (self\<lparr>only_feature_extraction := b\<rparr>) = fc2 self
   \<and> fc3 (self\<lparr>only_feature_extraction := b\<rparr>) = fc3 self
   \<and> snd (forward (self\<lparr>only_feature_extraction := b\<rparr>) x)
       = self\<lparr>only_feature_extraction := b\<rparr>"
  by (simp add: forward_def Let_def)

section \<open>The summed loss\<close>

lemma zip_concat:
  "length P = length T \<Longrightarrow> \<forall>(p, t) \<in> set (zip P T). length p = length t
     \<Longrightarrow> zip (concat P) (concat T) = concat (map2 zip P T)"
  by (induction P T rule: list_induct2) simp_all

lemma sum_list_concat_map:
  fixes f :: "'a \<Rightarrow> real"
  shows "sum_list (map f (concat xss)) = sum_list (map (\<lambda>xs. sum_list (map f xs)) xss)"
  by (induction xss) simp_all

lemma loss_fn_rows:
  assumes "length P = length T" and "\<forall>(p, t) \<in> set (zip P T). length p = length t"
  shows "loss_fn lg P T = sum_list (map2 (\<lambda>p t. sum_list (map2 (bce lg) p t)) P T)"
proof -
  have "loss_fn lg P T = sum_list (map (\<lambda>(p, t). bce lg p t) (concat (map2 zip P T)))"
    by (simp add: loss_fn_def zip_concat [OF assms])
  also have "\<dots> = sum_list (map (\<lambda>xs. sum_list (map (\<lambda>(p, t). bce lg p t) xs)) (map2 zip P T))"
    by (rule sum_list_concat_map)
  also have "\<dots> = sum_list (map2 (\<lambda>p t. sum_list (map2 (bce lg) p t)) P T)"
    by (simp add: o_def split_def)
  finally show ?thesis .
qed

lemma sum_list_map2_nth:
  fixes f :: "'a \<Rightarrow> 'b \<Rightarrow> real"
  assumes "length xs = n" "length ys = n"
  shows "sum_list (map2 f xs ys) = (\<Sum>i<n. f (xs ! i) (ys ! i))"
proof -
  have "sum_list (map2 f xs ys) = (\<Sum>i = 0..<length (map2 f xs ys). map2 f xs ys ! i)"
    by (rule sum_list_sum_nth)
  also have "\<dots> = (\<Sum>i<n. f (xs ! i) (ys ! i))"
    using assms by (simp add: atLeast0LessThan)
  finally show ?thesis .
qed

text \<open>
  Claim C2. On predictions \<open>P\<close> and targets \<open>T\<close> of shape \<open>[B, n]\<close> the loss is the sum,
  over all \<open>B\<close> examples and all \<open>n\<close> labels, of \<open>- (t * log p + (1 - t) * log (1 - p))\<close>:
  a sum over both axes, with no division by the number of elements.
\<close>

theorem loss_fn_is_sum:
  assumes P: "length P = B" "\<forall>p \<in> set P. length p = n"
    and T: "length T = B" "\<forall>t \<in> set T. length t = n"
  shows "loss_fn lg P T =
     (\<Sum>i<B. \<Sum>j<n. - (T ! i ! j * lg (P ! i ! j) + (1 - T ! i ! j) * lg (1 - P ! i ! j)))"
proof -
  have eq: "\<forall>(p, t) \<in> set (zip P T). length p = length t"
    using P T by (metis (mono_tags, lifting) case_prodI2 set_zip_leftD set_zip_rightD)
  have "loss_fn lg P T = sum_list (map2 (\<lambda>p t. sum_list (map2 (bce lg) p t)) P T)"
    using P T eq by (intro loss_fn_rows) simp_all
  also have "\<dots> = (\<Sum>i<B. sum_list (map2 (bce lg) (P ! i) (T ! i)))"
    using P T by (intro sum_list_map2_nth) simp_all
  also have "\<dots> = (\<Sum>i<B. \<Sum>j<n. bce lg (P ! i ! j) (T ! i ! j))"
    using P T by (intro sum.cong refl sum_list_map2_nth) simp_all
  finally show ?thesis by (simp add: bce_def)
qed

theorem loss_fn_is_sum_witness:
  "length [[1 / 2], [1 / 4 :: real]] = 2 \<and> length [[1], [0 :: real]] = 2
   \<and> loss_fn ln [[1 / 2], [1 / 4]] [[1], [0]] = - ln (1 / 2) + - ln (3 / 4)"
  using loss_fn_is_sum [of "[[1 / 2], [1 / 4]]" 2 1 "[[1], [0]]" ln]
  by (simp add: lessThan_Suc numeral_2_eq_2)

text \<open>
  In exact arithmetic the summed loss does not depend on the order of the rows: one
  permutation \<open>\<pi>\<close> of the row indices applied to both matrices leaves \<open>loss_fn\<close>
  unchanged. This is a property of the sum of reals only. The library accumulates 32-bit
  floats, in an order that the source does not fix, and there a permutation of the rows
  can change the last digits of the result; nothing is stated here about that sum.
\<close>

lemma loss_fn_row_permutation_exact:
  assumes len: "length P = length T"
    and shape: "\<forall>i<length P. length (P ! i) = length (T ! i)"
    and perm: "mset \<pi> = mset [0..<length P]"
  shows "loss_fn lg (map (\<lambda>i. P ! i) \<pi>) (map (\<lambda>i. T ! i) \<pi>) = loss_fn lg P T"
proof -
  define g where "g = (\<lambda>i. sum_list (map2 (bce lg) (P ! i) (T ! i)))"
  have in_range: "\<forall>i \<in> set \<pi>. i < length P"
    using perm by (metis atLeastLessThan_iff set_mset_mset set_upt)
  have rows: "loss_fn lg (map (\<lambda>i. P ! i) is) (map (\<lambda>i. T ! i) is) = sum_list (map g is)"
    if "\<forall>i \<in> set is. i < length P" for "is"
  proof -
    have "\<forall>(p, t) \<in> set (zip (map (\<lambda>i. P ! i) is) (map (\<lambda>i. T ! i) is)). length p = length t"
      using that shape by (auto simp add: zip_map_map set_zip)
    then have "loss_fn lg (map (\<lambda>i. P ! i) is) (map (\<lambda>i. T ! i) is)
        = sum_list (map2 (\<lambda>p t. sum_list (map2 (bce lg) p t)) (map (\<lambda>i. P ! i) is) (map (\<lambda>i. T ! i) is))"
      by (intro loss_fn_rows) simp_all
    also have "\<dots> = sum_list (map g is)"
      by (simp add: zip_map_map o_def g_def zip_same_conv_map)
    finally show ?thesis .
  qed
  have "loss_fn lg (map (\<lambda>i. P ! i) \<pi>) (map (\<lambda>i. T ! i) \<pi>) = sum_list (map g \<pi>)"
    using in_range by (rule rows)
  also have "\<dots> = sum_mset (image_mset g (mset \<pi>))"
    by (simp add: sum_mset_sum_list [symmetric])
  also have "\<dots> = sum_mset (image_mset g (mset [0..<length P]))"
    by (simp only: perm)
  also have "\<dots> = sum_list (map g [0..<length P])"
    by (simp add: sum_mset_sum_list [symmetric])
  also have "\<dots> = loss_fn lg (map (\<lambda>i. P ! i) [0..<length P]) (map (\<lambda>i. T ! i) [0..<length P])"
    by (rule rows [symmetric]) simp
  also have "\<dots> = loss_fn lg P T"
    by (simp add: map_nth len [symmetric]) (simp add: len map_nth)
  finally show ?thesis .
qed

section \<open>Batches of a loader\<close>

lemma batched_Nil [simp]: "batched k [] = []"
  by (simp add: batched.simps)

lemma batched_0 [simp]: "batched 0 xs = []"
  by (simp add: batched.simps)

lemma concat_batched: "0 < k \<Longrightarrow> concat (batched k xs) = xs"
proof (induction k xs rule: batched.induct)
  case (1 k xs)
  show ?case
  proof (cases "xs = []")
    case True
    then show ?thesis by simp
  next
    case False
    with 1 show ?thesis by (subst batched.simps) simp
  qed
qed

lemma batched_bounds: "b \<in> set (batched k xs) \<Longrightarrow> b \<noteq> [] \<and> length b \<le> k"
proof (induction k xs rule: batched.induct)
  case (1 k xs)
  show ?case
  proof (cases "k = 0 \<or> xs = []")
    case True
    with "1.prems" show ?thesis by (auto simp add: batched.simps)
  next
    case False
    with "1.prems" have "b = take k xs \<or> b \<in> set (batched k (drop k xs))"
      by (subst (asm) batched.simps) simp
    with False "1.IH" show ?thesis by auto
  qed
qed

lemma batched_eq_Nil_iff: "batched k xs = [] \<longleftrightarrow> k = 0 \<or> xs = []"
  by (subst batched.simps) simp


lemma sampler_iter_length:
  assumes "mset (randperm (length (sampler_indices loader))) = mset [0..<length (sampler_indices loader)]"
  shows "length (sampler_iter (loader_sampler loader) (length (fst (loader_dataset loader))) randperm)
           = length (sampler_indices loader)"
proof (cases "loader_sampler loader")
  case (SubsetRandomSampler ind)
  then have "size (mset (randperm (length ind))) = size (mset [0..<length ind])"
    using assms by (simp add: sampler_indices_def)
  with SubsetRandomSampler show ?thesis by (simp add: sampler_indices_def)
next
  case SequentialSampler
  then show ?thesis by (simp add: sampler_indices_def)
qed

lemma sum_list_length_concat: "sum_list (map length xss) = length (concat xss)"
  by (induction xss) simp_all

lemma DataLoader_iter_sizes:
  assumes "0 < loader_batch_size loader"
  shows "sum_list (map (\<lambda>b. length (fst b)) (DataLoader_iter loader randperm))
           = length (sampler_iter (loader_sampler loader) (length (fst (loader_dataset loader))) randperm)"
proof -
  let ?order = "sampler_iter (loader_sampler loader) (length (fst (loader_dataset loader))) randperm"
  have "sum_list (map (\<lambda>b. length (fst b)) (DataLoader_iter loader randperm))
          = sum_list (map length (batched (loader_batch_size loader) ?order))"
    by (simp add: DataLoader_iter_def collate_def o_def)
  also have "\<dots> = length ?order"
    using assms by (simp add: sum_list_length_concat concat_batched)
  finally show ?thesis .
qed

lemma DataLoader_iter_bounds:
  "b \<in> set (DataLoader_iter loader randperm)
     \<Longrightarrow> 0 < length (fst b) \<and> length (fst b) \<le> loader_batch_size loader
       \<and> length (snd b) = length (fst b)"
  by (auto simp add: DataLoader_iter_def collate_def dest: batched_bounds)

section \<open>The loops in closed form\<close>

lemma train_loop_eq:
  "train_loop lg adam bs (l, s, m) =
     (l + sum_list (train_losses lg adam bs m), s + sum_list (map (\<lambda>b. length (fst b)) bs),
      train_final adam bs m)"
proof (induction bs arbitrary: l s m)
  case Nil
  show ?case by simp
next
  case (Cons b bs)
  obtain x targets where b: "b = (x, targets)" by (cases b)
  show ?case
    by (simp add: b Cons.IH forward_snd Let_def split_def add.assoc)
qed

lemma valid_loop_eq:
  "valid_loop f1 lg bs (l, s, fs, m) =
     (l + sum_list (map (batch_loss lg m) bs), s + sum_list (map (\<lambda>b. length (fst b)) bs),
      fs @ map (batch_f1 f1 m) bs, m)"
proof (induction bs arbitrary: l s fs)
  case Nil
  show ?case by simp
next
  case (Cons b bs)
  obtain x targets where b: "b = (x, targets)" by (cases b)
  show ?case
    by (simp add: b Cons.IH forward_snd Let_def split_def add.assoc
        batch_loss_def batch_f1_def batch_output_def)
qed

lemma test_loop_eq:
  "test_loop lg bs (l, s, os, m) =
     (l + sum_list (map (batch_loss lg m) bs), s + sum_list (map (\<lambda>b. length (fst b)) bs),
      os @ map (batch_output m) bs, m)"
proof (induction bs arbitrary: l s os)
  case Nil
  show ?case by simp
next
  case (Cons b bs)
  obtain x targets where b: "b = (x, targets)" by (cases b)
  show ?case
    by (simp add: b Cons.IH forward_snd Let_def split_def add.assoc
        batch_loss_def batch_output_def)
qed

section \<open>The instance evaluated\<close>

lemma toy_n_train: "compute_n_train 3 = 2"
  by (simp add: compute_n_train_eq)

lemma upt_3: "[0..<3] = [0, 1, 2]"
  by (simp add: upt_rec)

lemma toy_len: "length toy_inputs = 3"
  by (simp add: toy_inputs_def)

lemma toy_train_loader:
  "train_loader toy_net = \<lparr>loader_dataset = (toy_inputs, toy_labels), loader_batch_size = 64,
      loader_sampler = SubsetRandomSampler [0, 1]\<rparr>"
  unfolding toy_net_def FeatureNetwork_init_def Let_def toy_len toy_n_train upt_3 by simp

lemma toy_valid_loader:
  "valid_loader toy_net = \<lparr>loader_dataset = (toy_inputs, toy_labels), loader_batch_size = 64,
      loader_sampler = SubsetRandomSampler [2]\<rparr>"
  unfolding toy_net_def FeatureNetwork_init_def Let_def toy_len toy_n_train upt_3 by simp

lemma toy_model:
  "model toy_net = \<lparr>only_feature_extraction = False, n_hidden_units = 150,
      fc1 = toy_layer, fc2 = toy_layer, fc3 = toy_layer, training = True, lr = 1 / 1000,
      optimizer_state = ()\<rparr>"
  by (simp add: toy_net_def FeatureNetwork_init_def FeatureMLP_init_def Let_def)

lemma toy_forward:
  "fst (forward (model toy_net\<lparr>training := b\<rparr>) X) = map (\<lambda>x. [1 / 2]) X"
  by (simp add: toy_model forward_def Let_def relu_def sigmoid_def Linear_call_def
      Linear_row_def toy_layer_def dot_def)

lemma toy_forward0:
  "fst (forward (model toy_net) X) = map (\<lambda>x. [1 / 2]) X"
  by (simp add: toy_model forward_def Let_def relu_def sigmoid_def Linear_call_def
      Linear_row_def toy_layer_def dot_def)

lemma toy_train_batches:
  "DataLoader_iter (train_loader toy_net) toy_randperm = [([[2], [1]], [[0], [1]])]"
  by (simp add: toy_train_loader DataLoader_iter_def toy_randperm_def batched.simps
      collate_def MyDataset_getitem_def toy_inputs_def toy_labels_def upt_rec)

lemma toy_valid_batches:
  "DataLoader_iter (valid_loader toy_net) toy_randperm = [([[3]], [[1]])]"
  by (simp add: toy_valid_loader DataLoader_iter_def toy_randperm_def batched.simps
      collate_def MyDataset_getitem_def toy_inputs_def toy_labels_def upt_rec)

lemma toy_adam_id: "optimizer_step toy_adam m x t = m"
  by (simp add: optimizer_step_def toy_adam_def)

lemma toy_perm: "mset (toy_randperm k) = mset [0..<k]"
  by (simp add: toy_randperm_def)

lemma toy_test_batches:
  "DataLoader_iter toy_test_loader rp = [([[1], [2]], [[1], [0]]), ([[3]], [[1]])]"
  by (simp add: toy_test_loader_def DataLoader_iter_def batched.simps toy_len upt_3
      collate_def MyDataset_getitem_def)
    (simp add: toy_inputs_def toy_labels_def)

lemma torch_round_half: "torch_round (1 / 2) = 0"
  by (simp add: torch_round_def Let_def)

lemma toy_losses:
  "batch_loss ln (model toy_net\<lparr>training := b\<rparr>) ([[3]], [[1]]) = ln 2"
  "batch_loss ln (model toy_net\<lparr>training := b\<rparr>) ([[1], [2]], [[1], [0]]) = 2 * ln 2"
  by (simp_all add: batch_loss_def toy_forward loss_fn_def bce_def ln_div)

lemma toy_outputs:
  "batch_output (model toy_net\<lparr>training := b\<rparr>) (X, T) = map (\<lambda>x. [0]) X"
  by (simp add: batch_output_def toy_forward round_int_def torch_round_half o_def)

section \<open>Training, validation and test\<close>

lemma loader_total_size:
  assumes "0 < loader_batch_size loader"
    and "mset (randperm (length (sampler_indices loader))) = mset [0..<length (sampler_indices loader)]"
  shows "sum_list (map (\<lambda>b. length (fst b)) (DataLoader_iter loader randperm))
           = length (sampler_indices loader)"
  using assms by (simp only: DataLoader_iter_sizes sampler_iter_length)

lemma DataLoader_iter_eq_Nil_iff:
  "DataLoader_iter loader randperm = [] \<longleftrightarrow>
     loader_batch_size loader = 0
     \<or> sampler_iter (loader_sampler loader) (length (fst (loader_dataset loader))) randperm = []"
  by (simp add: DataLoader_iter_def batched_eq_Nil_iff)

lemma train_closed_form:
  assumes bs: "0 < loader_batch_size (train_loader self)"
    and ne: "sampler_indices (train_loader self) \<noteq> []"
    and perm: "mset (randperm (length (sampler_indices (train_loader self))))
                 = mset [0..<length (sampler_indices (train_loader self))]"
  shows "train lg adam self randperm =
           Inr (sum_list (train_losses lg adam (DataLoader_iter (train_loader self) randperm)
                            ((model self)\<lparr>training := True\<rparr>))
                  / real (length (sampler_indices (train_loader self))),
                self\<lparr>model := train_final adam (DataLoader_iter (train_loader self) randperm)
                                  ((model self)\<lparr>training := True\<rparr>)\<rparr>)"
proof -
  have size: "sum_list (map (\<lambda>b. length (fst b)) (DataLoader_iter (train_loader self) randperm))
                = length (sampler_indices (train_loader self))"
    using bs perm by (rule loader_total_size)
  have "length (sampler_indices (train_loader self)) \<noteq> 0" using ne by simp
  then show ?thesis
    using size by (simp add: train_def train_loop_eq Let_def)
qed

text \<open>
  Claim C7. When the training partition is not empty, \<open>train\<close> returns the sum of the
  batch losses of the epoch, each taken on the module as the preceding optimizer steps
  left it, divided by the number of training examples processed, which is the size of
  the partition and not the number of batches.
\<close>

theorem train_per_example_average:
  fixes self :: "'o FeatureNetwork" and randperm :: "nat \<Rightarrow> nat list"
  defines "batches \<equiv> DataLoader_iter (train_loader self) randperm"
    and "m0 \<equiv> (model self)\<lparr>training := True\<rparr>"
    and "ind \<equiv> sampler_indices (train_loader self)"
  assumes bs: "0 < loader_batch_size (train_loader self)"
    and ne: "ind \<noteq> []"
    and perm: "mset (randperm (length ind)) = mset [0..<length ind]"
  shows "train lg adam self randperm =
           Inr (sum_list (train_losses lg adam batches m0) / real (length ind),
                self\<lparr>model := train_final adam batches m0\<rparr>)
       \<and> sum_list (map (\<lambda>b. length (fst b)) batches) = length ind"
proof
  show "train lg adam self randperm =
           Inr (sum_list (train_losses lg adam batches m0) / real (length ind),
                self\<lparr>model := train_final adam batches m0\<rparr>)"
    unfolding batches_def m0_def ind_def
    using bs ne [unfolded ind_def] perm [unfolded ind_def] by (rule train_closed_form)
  show "sum_list (map (\<lambda>b. length (fst b)) batches) = length ind"
    unfolding batches_def ind_def using bs perm [unfolded ind_def] by (rule loader_total_size)
qed

theorem train_per_example_average_witness:
  "0 < loader_batch_size (train_loader toy_net)
   \<and> sampler_indices (train_loader toy_net) = [0, 1]
   \<and> train ln toy_adam toy_net toy_randperm = Inr (ln 2, toy_net)"
proof -
  have ind: "sampler_indices (train_loader toy_net) = [0, 1]"
    by (simp add: toy_train_loader sampler_indices_def)
  have bs: "0 < loader_batch_size (train_loader toy_net)"
    by (simp add: toy_train_loader)
  have m: "(model toy_net)\<lparr>training := True\<rparr> = model toy_net"
    by (simp add: toy_model)
  have "train ln toy_adam toy_net toy_randperm = Inr (ln 2, toy_net)"
    using train_per_example_average [where self = toy_net and randperm = toy_randperm
        and lg = ln and adam = toy_adam, OF bs]
    apply (simp add: ind toy_perm toy_train_batches toy_adam_id)
    apply (simp add: toy_forward0 loss_fn_def bce_def m ln_div)
    done
  with bs ind show ?thesis by simp
qed

lemma valid_closed_form:
  assumes bs: "0 < loader_batch_size (valid_loader self)"
    and ne: "sampler_indices (valid_loader self) \<noteq> []"
    and perm: "mset (randperm (length (sampler_indices (valid_loader self))))
                 = mset [0..<length (sampler_indices (valid_loader self))]"
  shows "valid f1 lg self randperm =
           Inr ((sum_list (map (batch_loss lg ((model self)\<lparr>training := False\<rparr>))
                            (DataLoader_iter (valid_loader self) randperm))
                   / real (length (sampler_indices (valid_loader self))),
                 Some (sum_list (map (batch_f1 f1 ((model self)\<lparr>training := False\<rparr>))
                                  (DataLoader_iter (valid_loader self) randperm))
                         / real (length (DataLoader_iter (valid_loader self) randperm)))),
                self\<lparr>model := (model self)\<lparr>training := False\<rparr>\<rparr>)"
proof -
  let ?batches = "DataLoader_iter (valid_loader self) randperm"
  have size: "sum_list (map (\<lambda>b. length (fst b)) ?batches)
                = length (sampler_indices (valid_loader self))"
    using bs perm by (rule loader_total_size)
  have len: "length (sampler_indices (valid_loader self)) \<noteq> 0" using ne by simp
  with size have "?batches \<noteq> []" by auto
  then show ?thesis
    using size len by (simp add: valid_def valid_loop_eq np_mean_def Let_def)
qed



lemma forward_fst_map:
  "fst (forward m X) = map (\<lambda>x. hd (fst (forward m [x]))) X"
  by (simp add: forward_def Let_def relu_def sigmoid_def Linear_call_def)

lemma batch_output_concat:
  "concat (map (\<lambda>c. round_int (fst (forward m c))) cs) = round_int (fst (forward m (concat cs)))"
proof -
  have "round_int (fst (forward m X)) = map (\<lambda>x. map torch_round (hd (fst (forward m [x])))) X" for X
    by (subst forward_fst_map) (simp add: round_int_def)
  then show ?thesis by (simp add: map_concat o_def)
qed

lemma sequential_batches_concat:
  assumes "loader_sampler loader = SequentialSampler" and "0 < loader_batch_size loader"
  shows "concat (map fst (DataLoader_iter loader randperm)) = fst (loader_dataset loader)"
proof -
  let ?X = "fst (loader_dataset loader)"
  have "concat (map fst (DataLoader_iter loader randperm))
      = concat (map (map (\<lambda>i. ?X ! i)) (batched (loader_batch_size loader) [0..<length ?X]))"
    using assms(1) by (simp add: DataLoader_iter_def collate_def MyDataset_getitem_def o_def)
  also have "\<dots> = map (\<lambda>i. ?X ! i) (concat (batched (loader_batch_size loader) [0..<length ?X]))"
    by (simp add: map_concat)
  also have "\<dots> = ?X"
    using assms(2) by (simp add: concat_batched map_nth)
  finally show ?thesis .
qed

lemma test_closed_form:
  assumes ne: "DataLoader_iter test_loader randperm \<noteq> []"
  shows "test f1 lg self test_loader randperm test_labels =
           Inr ((sum_list (map (batch_loss lg ((model self)\<lparr>training := False\<rparr>))
                            (DataLoader_iter test_loader randperm))
                   / real (sum_list (map (\<lambda>b. length (fst b)) (DataLoader_iter test_loader randperm))),
                 f1 test_labels (concat (map (batch_output ((model self)\<lparr>training := False\<rparr>))
                                          (DataLoader_iter test_loader randperm)))),
                self\<lparr>model := (model self)\<lparr>training := False\<rparr>\<rparr>)"
proof -
  let ?batches = "DataLoader_iter test_loader randperm"
  obtain b rest where br: "?batches = b # rest" using ne by (cases ?batches) auto
  then have "b \<in> set ?batches" by simp
  then have "0 < length (fst b)" by (rule DataLoader_iter_bounds [THEN conjunct1])
  then have "sum_list (map (\<lambda>b. length (fst b)) ?batches) \<noteq> 0"
    by (simp add: br)
  then show ?thesis
    by (simp add: test_def test_loop_eq Let_def)
qed

text \<open>
  Claim C4. When the test loader yields a batch, \<open>test\<close> rounds each batch's output,
  concatenates the rounded outputs of all batches and calls the F1 score once, on the
  concatenation and the full test label matrix; it returns that score with the summed
  batch losses divided by the number of test examples. For a loader that runs through
  its dataset in order, the concatenation is the rounded output of the whole input
  matrix.
\<close>

theorem test_f1_once_on_concatenation:
  fixes self :: "'o FeatureNetwork" and randperm :: "nat \<Rightarrow> nat list" and test_loader :: DataLoader
  defines "batches \<equiv> DataLoader_iter test_loader randperm"
    and "m0 \<equiv> (model self)\<lparr>training := False\<rparr>"
  assumes bs: "0 < loader_batch_size test_loader"
    and ne: "batches \<noteq> []"
  shows "test f1 lg self test_loader randperm test_labels =
           Inr ((sum_list (map (batch_loss lg m0) batches)
                   / real (sum_list (map (\<lambda>b. length (fst b)) batches)),
                 f1 test_labels (concat (map (batch_output m0) batches))),
                self\<lparr>model := m0\<rparr>)
       \<and> (loader_sampler test_loader = SequentialSampler \<longrightarrow>
             concat (map (batch_output m0) batches)
               = round_int (fst (forward m0 (fst (loader_dataset test_loader))))
           \<and> sum_list (map (\<lambda>b. length (fst b)) batches)
               = length (fst (loader_dataset test_loader)))"
proof -
  have res: "test f1 lg self test_loader randperm test_labels =
           Inr ((sum_list (map (batch_loss lg m0) batches)
                   / real (sum_list (map (\<lambda>b. length (fst b)) batches)),
                 f1 test_labels (concat (map (batch_output m0) batches))),
                self\<lparr>model := m0\<rparr>)"
    unfolding batches_def m0_def using ne [unfolded batches_def] by (rule test_closed_form)
  have seq: "concat (map (batch_output m0) batches)
               = round_int (fst (forward m0 (fst (loader_dataset test_loader))))
           \<and> sum_list (map (\<lambda>b. length (fst b)) batches)
               = length (fst (loader_dataset test_loader))"
    if s: "loader_sampler test_loader = SequentialSampler"
  proof -
    have c: "concat (map fst batches) = fst (loader_dataset test_loader)"
      unfolding batches_def using s bs by (rule sequential_batches_concat)
    have "concat (map (batch_output m0) batches)
        = concat (map (\<lambda>c. round_int (fst (forward m0 c))) (map fst batches))"
      by (simp add: batch_output_def [abs_def] o_def)
    also have "\<dots> = round_int (fst (forward m0 (concat (map fst batches))))"
      by (rule batch_output_concat)
    finally have 1: "concat (map (batch_output m0) batches)
               = round_int (fst (forward m0 (fst (loader_dataset test_loader))))"
      by (simp only: c)
    have "sum_list (map (\<lambda>b. length (fst b)) batches) = length (concat (map fst batches))"
      by (simp add: length_concat o_def)
    with 1 show ?thesis by (simp only: c) 
  qed
  from res seq show ?thesis by blast
qed

theorem test_f1_once_on_concatenation_witness:
  "0 < loader_batch_size toy_test_loader
   \<and> DataLoader_iter toy_test_loader (\<lambda>k. []) = [([[1], [2]], [[1], [0]]), ([[3]], [[1]])]
   \<and> test toy_score ln toy_net toy_test_loader (\<lambda>k. []) toy_labels =
       Inr ((ln 2, toy_score toy_labels [[0], [0], [0]]),
            toy_net\<lparr>model := (model toy_net)\<lparr>training := False\<rparr>\<rparr>)"
proof -
  have bs: "0 < loader_batch_size toy_test_loader"
    by (simp add: toy_test_loader_def)
  have ne: "DataLoader_iter toy_test_loader (\<lambda>k. []) \<noteq> []"
    by (simp add: toy_test_batches)
  have "test toy_score ln toy_net toy_test_loader (\<lambda>k. []) toy_labels =
       Inr ((ln 2, toy_score toy_labels [[0], [0], [0]]),
            toy_net\<lparr>model := (model toy_net)\<lparr>training := False\<rparr>\<rparr>)"
    using test_f1_once_on_concatenation [where self = toy_net and randperm = "\<lambda>k. []"
        and lg = ln and ?f1.0 = toy_score and test_loader = toy_test_loader
        and test_labels = toy_labels, OF bs ne]
    by (simp add: toy_test_batches toy_losses toy_outputs)
  with bs show ?thesis by (simp add: toy_test_batches)
qed

lemma init_valid_loader_batch_size:
  "loader_batch_size (valid_loader (FeatureNetwork_init inputs labels l1 l2 l3 st)) = 64"
  by (simp add: FeatureNetwork_init_def Let_def)

text \<open>
  Claim C10. For a dataset of at least one example \<open>n_train\<close> is strictly below the
  size, so the validation partition is not empty; then, whenever the loader draws
  permutations, \<open>valid\<close> on a network holding that validation loader returns a pair
  whose loss is a quotient by a positive example count and whose mean is taken over a
  non-empty list of scores, and it does not raise \<open>ZeroDivisionError\<close>.
\<close>

theorem valid_never_divides_by_zero:
  fixes self :: "'o FeatureNetwork" and st :: 'o
  assumes N: "0 < length inputs"
    and loader: "valid_loader self = valid_loader (FeatureNetwork_init inputs labels l1 l2 l3 st)"
    and perm: "\<forall>k. mset (randperm k) = mset [0..<k]"
  shows "compute_n_train (length inputs) < length inputs
       \<and> length (sampler_indices (valid_loader self))
           = length inputs - compute_n_train (length inputs)
       \<and> sampler_indices (valid_loader self) \<noteq> []
       \<and> (\<exists>l f self'. valid f1 lg self randperm = Inr ((l, Some f), self'))"
proof -
  have less: "compute_n_train (length inputs) < length inputs"
    using N by (rule compute_n_train_less)
  have ind: "sampler_indices (valid_loader self)
      = drop (compute_n_train (length inputs)) [0..<length inputs]"
    by (simp only: loader init_valid_indices)
  then have len: "length (sampler_indices (valid_loader self))
      = length inputs - compute_n_train (length inputs)"
    by simp
  with less have ne: "sampler_indices (valid_loader self) \<noteq> []"
    by (metis length_0_conv zero_less_diff less_irrefl)
  have bs: "0 < loader_batch_size (valid_loader self)"
    by (simp add: loader init_valid_loader_batch_size)
  have p: "mset (randperm (length (sampler_indices (valid_loader self))))
             = mset [0..<length (sampler_indices (valid_loader self))]"
    using perm by blast
  from valid_closed_form [where self = self and randperm = randperm and ?f1.0 = f1 and lg = lg, OF bs ne p]
  have "\<exists>l f self'. valid f1 lg self randperm = Inr ((l, Some f), self')"
    by blast
  with less len ne show ?thesis by blast
qed

theorem valid_never_divides_by_zero_witness:
  "0 < length toy_inputs
   \<and> compute_n_train (length toy_inputs) < length toy_inputs
   \<and> sampler_indices (valid_loader toy_net) \<noteq> []
   \<and> (\<exists>l f self'. valid toy_score ln toy_net toy_randperm = Inr ((l, Some f), self'))"
proof -
  have N: "0 < length toy_inputs" by (simp add: toy_len)
  have loader: "valid_loader toy_net
      = valid_loader (FeatureNetwork_init toy_inputs toy_labels toy_layer toy_layer toy_layer ())"
    by (simp only: toy_net_def)
  have perm: "\<forall>k. mset (toy_randperm k) = mset [0..<k]" by (simp add: toy_perm)
  from valid_never_divides_by_zero [OF N loader perm, of toy_score ln] N
  show ?thesis by blast
qed

section \<open>The learning-rate schedule\<close>

lemma optimizer_step_lr [simp]: "lr (optimizer_step adam m x t) = lr m"
  by (simp add: optimizer_step_def split_def)

lemma train_final_lr [simp]: "lr (train_final adam bs m) = lr m"
  by (induction adam bs m rule: train_final.induct) simp_all

lemma train_frame:
  assumes "train lg adam self randperm = Inr (l, self')"
  shows "lr (model self') = lr (model self) \<and> train_loader self' = train_loader self
       \<and> valid_loader self' = valid_loader self"
  using assms by (auto simp add: train_def train_loop_eq Let_def split: if_splits)

lemma valid_frame:
  assumes "valid f1 lg self randperm = Inr (r, self')"
  shows "lr (model self') = lr (model self) \<and> train_loader self' = train_loader self
       \<and> valid_loader self' = valid_loader self"
  using assms by (auto simp add: valid_def valid_loop_eq Let_def split: if_splits)

lemma StepLR_step_eq:
  "StepLR_step sch m =
     (sch\<lparr>last_epoch := Suc (last_epoch sch)\<rparr>,
      m\<lparr>lr := lr m * (if Suc (last_epoch sch) mod step_size sch = 0 then gamma sch else 1)\<rparr>)"
  by (simp add: StepLR_step_def Let_def)

lemma decay_exponent_step:
  fixes e n s :: nat
  shows "(if Suc e mod s = 0 then 1 else 0) + ((Suc e + n) div s - Suc e div s)
           = (e + Suc n) div s - e div s"
proof -
  have 1: "Suc e div s = (if Suc e mod s = 0 then Suc (e div s) else e div s)"
    by (rule div_Suc)
  have 2: "Suc e div s \<le> (Suc e + n) div s"
    by (rule div_le_mono) simp
  from 1 2 show ?thesis by (simp split: if_splits)
qed

lemma epochs_schedule:
  assumes "epochs f1 lg adam rp_train rp_valid es (F_Net, sch, res) = Inr (F_Net', sch', res')"
  shows "last_epoch sch' = last_epoch sch + length es
       \<and> step_size sch' = step_size sch \<and> gamma sch' = gamma sch
       \<and> lr (model F_Net') = lr (model F_Net) *
            gamma sch ^ ((last_epoch sch + length es) div step_size sch
                           - last_epoch sch div step_size sch)"
  using assms
proof (induction es arbitrary: F_Net sch res)
  case Nil
  then show ?case by simp
next
  case (Cons epoch es)
  from Cons.prems obtain l_train F1 where
    tr: "train lg adam F_Net (rp_train epoch) = Inr (l_train, F1)"
    by (auto split: sum.splits)
  from Cons.prems tr obtain r F2 where
    va: "valid f1 lg F1 (rp_valid epoch) = Inr (r, F2)"
    by (auto split: sum.splits)
  have lr2: "lr (model F2) = lr (model F_Net)"
    using train_frame [OF tr] valid_frame [OF va] by simp
  define sch1 where "sch1 = sch\<lparr>last_epoch := Suc (last_epoch sch)\<rparr>"
  define g :: real where "g = (if Suc (last_epoch sch) mod step_size sch = 0 then gamma sch else 1)"
  define F3 where "F3 = F2\<lparr>model := (model F2)\<lparr>lr := lr (model F2) * g\<rparr>\<rparr>"
  obtain res1 where
    rest: "epochs f1 lg adam rp_train rp_valid es (F3, sch1, res1) = Inr (F_Net', sch', res')"
    using Cons.prems tr va
    by (cases r) (simp add: StepLR_step_eq sch1_def g_def F3_def)
  note ih = Cons.IH [OF rest]
  have g: "g = gamma sch ^ (if Suc (last_epoch sch) mod step_size sch = 0 then 1 else 0)"
    by (simp add: g_def)
  have "lr (model F_Net') = lr (model F_Net) * g *
      gamma sch ^ ((Suc (last_epoch sch) + length es) div step_size sch
                     - Suc (last_epoch sch) div step_size sch)"
    using ih by (simp add: sch1_def F3_def lr2)
  also have "\<dots> = lr (model F_Net) *
      gamma sch ^ ((last_epoch sch + Suc (length es)) div step_size sch
                     - last_epoch sch div step_size sch)"
    unfolding g by (simp only: mult.assoc power_add [symmetric] decay_exponent_step)
  finally show ?case using ih by (simp add: sch1_def)
qed

lemma toy_train: "train ln toy_adam toy_net toy_randperm = Inr (ln 2, toy_net)"
proof -
  have ind: "sampler_indices (train_loader toy_net) = [0, 1]"
    by (simp add: toy_train_loader sampler_indices_def)
  have bs: "0 < loader_batch_size (train_loader toy_net)"
    by (simp add: toy_train_loader)
  have m: "(model toy_net)\<lparr>training := True\<rparr> = model toy_net"
    by (simp add: toy_model)
  show ?thesis
    using train_closed_form [where self = toy_net and randperm = toy_randperm
        and lg = ln and adam = toy_adam, OF bs]
    apply (simp add: ind toy_perm toy_train_batches toy_adam_id)
    apply (simp add: toy_forward0 loss_fn_def bce_def m ln_div)
    done
qed

lemma toy_valid:
  "valid toy_score ln toy_net toy_randperm =
       Inr ((ln 2, Some 0), toy_net\<lparr>model := (model toy_net)\<lparr>training := False\<rparr>\<rparr>)"
proof -
  have ind: "sampler_indices (valid_loader toy_net) = [2]"
    by (simp add: toy_valid_loader sampler_indices_def)
  have bs: "0 < loader_batch_size (valid_loader toy_net)"
    by (simp add: toy_valid_loader)
  show ?thesis
    using valid_closed_form [where self = toy_net and randperm = toy_randperm
        and lg = ln and ?f1.0 = toy_score, OF bs]
    by (simp add: ind toy_perm toy_valid_batches toy_losses batch_f1_def toy_outputs
        toy_score_def round_int_def torch_round_def)
qed

lemma toy_epoch:
  "epochs toy_score ln toy_adam (\<lambda>e. toy_randperm) (\<lambda>e. toy_randperm) [e]
     (toy_net, sch, res) =
   Inr (toy_after (lr (model toy_net) *
            (if Suc (last_epoch sch) mod step_size sch = 0 then gamma sch else 1)),
        sch\<lparr>last_epoch := Suc (last_epoch sch)\<rparr>,
        res\<lparr>loss_train := loss_train res @ [ln 2], loss_valid := loss_valid res @ [ln 2],
            f1_valid := f1_valid res @ [Some 0]\<rparr>)"
  by (simp add: toy_train toy_valid StepLR_step_eq toy_after_def)

text \<open>
  Claim C9. Neither \<open>train\<close> nor \<open>valid\<close> changes the optimizer's step size. One call of
  the scheduler's step counts one epoch and multiplies the step size by \<open>gamma\<close> exactly
  when the count reaches a multiple of \<open>step_size\<close>. The epoch loop calls it once per
  epoch: after the epochs \<open>es\<close> the count has grown by their number, and with the
  scheduler of the entry point, \<open>StepLR(step_size=25, gamma=0.1)\<close>, the step size after
  \<open>E\<close> epochs is the initial one times \<open>0.1 ^ (E div 25)\<close>.
\<close>

theorem scheduler_once_per_epoch:
  "(\<forall>(self :: 'o FeatureNetwork) randperm l self'.
        train lg adam self randperm = Inr (l, self') \<longrightarrow>
        lr (model self') = lr (model self))
   \<and> (\<forall>(self :: 'o FeatureNetwork) randperm r self'.
        valid f1 lg self randperm = Inr (r, self') \<longrightarrow>
        lr (model self') = lr (model self))
   \<and> (\<forall>sch m. last_epoch (fst (StepLR_step sch m)) = last_epoch sch + 1
        \<and> lr (snd (StepLR_step sch (m :: 'o FeatureMLP))) =
            (if (last_epoch sch + 1) mod step_size sch = 0 then lr m * gamma sch else lr m))
   \<and> (\<forall>es F_Net sch res F_Net' sch' res'.
        epochs f1 lg adam rp_train rp_valid es (F_Net, sch, res) = Inr (F_Net', sch', res') \<longrightarrow>
        last_epoch sch' = last_epoch sch + length es
        \<and> lr (model F_Net') = lr (model F_Net) *
             gamma sch ^ ((last_epoch sch + length es) div step_size sch
                            - last_epoch sch div step_size sch))
   \<and> (\<forall>E F_Net res F_Net' sch' res'.
        epochs f1 lg adam rp_train rp_valid [0..<E] (F_Net, StepLR_init 25 (1 / 10), res)
          = Inr (F_Net', sch', res') \<longrightarrow>
        last_epoch sch' = E \<and> lr (model F_Net') = lr (model F_Net) * (1 / 10) ^ (E div 25))"
proof (intro conjI allI impI)
  fix self :: "'o FeatureNetwork" and randperm l self'
  assume "train lg adam self randperm = Inr (l, self')"
  then show "lr (model self') = lr (model self)" by (simp add: train_frame)
next
  fix self :: "'o FeatureNetwork" and randperm r self'
  assume "valid f1 lg self randperm = Inr (r, self')"
  then show "lr (model self') = lr (model self)" by (simp add: valid_frame)
next
  fix sch and m :: "'o FeatureMLP"
  show "last_epoch (fst (StepLR_step sch m)) = last_epoch sch + 1"
    by (simp add: StepLR_step_eq)
  show "lr (snd (StepLR_step sch m)) =
            (if (last_epoch sch + 1) mod step_size sch = 0 then lr m * gamma sch else lr m)"
    by (simp add: StepLR_step_eq)
next
  fix es and F_Net :: "'o FeatureNetwork" and sch res F_Net' sch' res'
  assume a: "epochs f1 lg adam rp_train rp_valid es (F_Net, sch, res) = Inr (F_Net', sch', res')"
  from epochs_schedule [OF a] show "last_epoch sch' = last_epoch sch + length es" by simp
  from epochs_schedule [OF a] show "lr (model F_Net') = lr (model F_Net) *
             gamma sch ^ ((last_epoch sch + length es) div step_size sch
                            - last_epoch sch div step_size sch)" by simp
next
  fix E and F_Net :: "'o FeatureNetwork" and res F_Net' sch' res'
  assume a: "epochs f1 lg adam rp_train rp_valid [0..<E] (F_Net, StepLR_init 25 (1 / 10), res)
          = Inr (F_Net', sch', res')"
  from epochs_schedule [OF a] show "last_epoch sch' = E"
    by (simp add: StepLR_init_def)
  from epochs_schedule [OF a] show "lr (model F_Net') = lr (model F_Net) * (1 / 10) ^ (E div 25)"
    by (simp add: StepLR_init_def)
qed

theorem scheduler_once_per_epoch_witness:
  "epochs toy_score ln toy_adam (\<lambda>e. toy_randperm) (\<lambda>e. toy_randperm) [0..<n_epochs]
     (toy_net, StepLR_init 25 (1 / 10), \<lparr>loss_train = [], loss_valid = [], f1_valid = []\<rparr>)
     = Inr (toy_after (1 / 1000), \<lparr>step_size = 25, gamma = 1 / 10, last_epoch = 1\<rparr>,
            \<lparr>loss_train = [ln 2], loss_valid = [ln 2], f1_valid = [Some 0]\<rparr>)
   \<and> lr (model (toy_after (1 / 1000))) = lr (model toy_net) * (1 / 10) ^ (n_epochs div 25)
   \<and> epochs toy_score ln toy_adam (\<lambda>e. toy_randperm) (\<lambda>e. toy_randperm) [24]
     (toy_net, \<lparr>step_size = 25, gamma = 1 / 10, last_epoch = 24\<rparr>,
      \<lparr>loss_train = [], loss_valid = [], f1_valid = []\<rparr>)
     = Inr (toy_after (1 / 10000), \<lparr>step_size = 25, gamma = 1 / 10, last_epoch = 25\<rparr>,
            \<lparr>loss_train = [ln 2], loss_valid = [ln 2], f1_valid = [Some 0]\<rparr>)
   \<and> lr (model (toy_after (1 / 10000))) = lr (model toy_net) * (1 / 10)"
proof -
  have e1: "epochs toy_score ln toy_adam (\<lambda>e. toy_randperm) (\<lambda>e. toy_randperm) [0..<n_epochs]
     (toy_net, StepLR_init 25 (1 / 10), \<lparr>loss_train = [], loss_valid = [], f1_valid = []\<rparr>)
     = Inr (toy_after (1 / 1000), \<lparr>step_size = 25, gamma = 1 / 10, last_epoch = 1\<rparr>,
            \<lparr>loss_train = [ln 2], loss_valid = [ln 2], f1_valid = [Some 0]\<rparr>)"
  proof -
    have "[0..<n_epochs] = [0]" by (simp add: n_epochs_def)
    then show ?thesis
      by (simp only: toy_epoch) (simp add: StepLR_init_def toy_model)
  qed
  have e2: "epochs toy_score ln toy_adam (\<lambda>e. toy_randperm) (\<lambda>e. toy_randperm) [24]
     (toy_net, \<lparr>step_size = 25, gamma = 1 / 10, last_epoch = 24\<rparr>,
      \<lparr>loss_train = [], loss_valid = [], f1_valid = []\<rparr>)
     = Inr (toy_after (1 / 10000), \<lparr>step_size = 25, gamma = 1 / 10, last_epoch = 25\<rparr>,
            \<lparr>loss_train = [ln 2], loss_valid = [ln 2], f1_valid = [Some 0]\<rparr>)"
    by (simp only: toy_epoch) (simp add: toy_model)
  note t = scheduler_once_per_epoch [where ?f1.0 = toy_score and lg = ln and adam = toy_adam
      and rp_train = "\<lambda>e. toy_randperm" and rp_valid = "\<lambda>e. toy_randperm"]
  from t e1 have "lr (model (toy_after (1 / 1000)))
      = lr (model toy_net) * (1 / 10) ^ (n_epochs div 25)"
    by blast
  moreover from t e2 have "lr (model (toy_after (1 / 10000))) = lr (model toy_net) *
      gamma \<lparr>step_size = 25, gamma = 1 / 10, last_epoch = 24\<rparr> ^
        ((last_epoch \<lparr>step_size = 25, gamma = 1 / 10, last_epoch = 24\<rparr> + length [24::nat])
            div step_size \<lparr>step_size = 25, gamma = 1 / 10, last_epoch = 24\<rparr>
         - last_epoch \<lparr>step_size = 25, gamma = 1 / 10, last_epoch = 24\<rparr>
            div step_size \<lparr>step_size = 25, gamma = 1 / 10, last_epoch = 24\<rparr>)"
    by blast
  then have "lr (model (toy_after (1 / 10000))) = lr (model toy_net) * (1 / 10)"
    by simp
  ultimately show ?thesis using e1 e2 by blast
qed

end
